theory Spec2Isabelle
  imports Main
begin

section \<open>Python values used by \<open>pegasus_qac/pqubit.py\<close>\<close>

text \<open>
  The module works on Python's unbounded integers, modelled as \<open>int\<close>; Python's \<open>//\<close> and
  \<open>%\<close> with a positive divisor are floor division and its remainder, which is what
  \<open>div\<close> and \<open>mod\<close> are on \<open>int\<close>. Every exception the module can raise is a value of
  \<open>py_error\<close>, and a function that can raise returns \<open>py_error + 'a\<close>.
\<close>

datatype py_error =
    ValueError string
  | RuntimeError string
  | IndexError
  | AttributeError
  | AssertionError

text \<open>\<open>str(n)\<close> of a Python integer, as the f-strings of the module format it.\<close>

fun str_nat :: "nat \<Rightarrow> string" where
  "str_nat n =
     (if n < 10 then [''0123456789'' ! n]
      else str_nat (n div 10) @ [''0123456789'' ! (n mod 10)])"

declare str_nat.simps [simp del]

definition str_int :: "int \<Rightarrow> string" where
  "str_int i = (if i < 0 then CHR ''-'' # str_nat (nat (- i)) else str_nat (nat i))"

section \<open>The shift table\<close>

definition Pegasus0Shift :: "int list" where
  "Pegasus0Shift = [2, 2, 10, 10, 6, 6, 6, 6, 2, 2, 10, 10]"

text \<open>
  \<open>Pegasus0Shift[i]\<close>: a Python list read. An index from \<open>-12\<close> to \<open>-1\<close> counts from the
  end, and an index outside \<open>[-12, 11]\<close> raises \<open>IndexError\<close>.
\<close>

definition Pegasus0Shift_get :: "int \<Rightarrow> py_error + int" where
  "Pegasus0Shift_get i =
     (let n = int (length Pegasus0Shift);
          i' = (if i < 0 then n + i else i)
      in if 0 \<le> i' \<and> i' < n then Inr (Pegasus0Shift ! nat i') else Inl IndexError)"

section \<open>The class \<open>Pqubit\<close>\<close>

text \<open>
  The attribute \<open>_check_str\<close> is assigned only when the constructor runs with
  \<open>assert_valid=False\<close>; after a strict construction the object has no such attribute.
  \<open>check_attr\<close> keeps the three cases apart. The fields \<open>m, u, w, k, z\<close> of the class are
  the selectors \<open>pq_m, pq_u, pq_w, pq_k, pq_z\<close>, and \<open>_valid_coord\<close> is \<open>valid_coord\<close>.
\<close>

datatype check_attr = Unset | PyNone | PyStr string

record Pqubit =
  pq_m :: int
  pq_u :: int
  pq_w :: int
  pq_k :: int
  pq_z :: int
  valid_coord :: bool
  check_str :: check_attr

definition check_if_not_valid :: "int \<Rightarrow> int \<Rightarrow> int \<Rightarrow> int \<Rightarrow> int \<Rightarrow> string option" where
  "check_if_not_valid m u w k z =
     (if \<not> m \<ge> 1 then
        Some (''Invalid m: '' @ str_int m @ ''. (Must be an integer greater than 0)'')
      else if \<not> (u = 0 \<or> u = 1) then
        Some (''Invalid u: '' @ str_int u @ ''. (Valid range is 0 or 1)'')
      else if \<not> (0 \<le> w \<and> w \<le> m - 1) then
        Some (''Invalid w: '' @ str_int w @ ''. (Valid range is [0, '' @ str_int (m - 1)
              @ ''] with m='' @ str_int m @ '')'')
      else if \<not> (0 \<le> k \<and> k \<le> 11) then
        Some (''Invalid k: '' @ str_int k @ ''. (Valid range is [0, 11])'')
      else if \<not> (0 \<le> z \<and> z \<le> m - 2) then
        Some (''Invalid z: '' @ str_int z @ ''. (Valid range is [0, '' @ str_int (m - 2)
              @ ''] with m='' @ str_int m @ '')'')
      else None)"

text \<open>\<open>Pqubit.__init__(m, u, w, k, z, assert_valid)\<close>.\<close>

definition Pqubit_init :: "int \<Rightarrow> int \<Rightarrow> int \<Rightarrow> int \<Rightarrow> int \<Rightarrow> bool \<Rightarrow> py_error + Pqubit" where
  "Pqubit_init m u w k z assert_valid =
     (let check = check_if_not_valid m u w k z in
      if assert_valid then
        (case check of
           Some s \<Rightarrow> Inl (ValueError s)
         | None \<Rightarrow> Inr \<lparr>pq_m = m, pq_u = u, pq_w = w, pq_k = k, pq_z = z,
                        valid_coord = True, check_str = Unset\<rparr>)
      else
        (case check of
           Some s \<Rightarrow> Inr \<lparr>pq_m = m, pq_u = u, pq_w = w, pq_k = k, pq_z = z,
                          valid_coord = False, check_str = PyStr s\<rparr>
         | None \<Rightarrow> Inr \<lparr>pq_m = m, pq_u = u, pq_w = w, pq_k = k, pq_z = z,
                        valid_coord = True, check_str = PyNone\<rparr>))"

text \<open>
  The coupling methods forward \<open>**kwargs\<close> to the constructor, whose only parameter left
  for a keyword is \<open>assert_valid\<close>: \<open>None\<close> is the call without the keyword (the default
  \<open>True\<close> applies), \<open>Some b\<close> the call with \<open>assert_valid=b\<close>.
\<close>

definition Pqubit_kw :: "int \<Rightarrow> int \<Rightarrow> int \<Rightarrow> int \<Rightarrow> int \<Rightarrow> bool option \<Rightarrow> py_error + Pqubit" where
  "Pqubit_kw m u w k z kwargs =
     Pqubit_init m u w k z (case kwargs of None \<Rightarrow> True | Some b \<Rightarrow> b)"

text \<open>\<open>Pqubit.__eq__\<close>: the five coordinates, not the validity attributes.\<close>

definition Pqubit_eq :: "Pqubit \<Rightarrow> Pqubit \<Rightarrow> bool" where
  "Pqubit_eq self other =
     (pq_m self = pq_m other \<and> pq_u self = pq_u other \<and> pq_w self = pq_w other \<and>
      pq_k self = pq_k other \<and> pq_z self = pq_z other)"

definition none_if_invalid :: "Pqubit \<Rightarrow> Pqubit option" where
  "none_if_invalid self = (if valid_coord self then Some self else None)"

text \<open>
  \<open>to_linear\<close>: the f-string of the error reads \<open>_check_str\<close>, which prints as \<open>None\<close>
  when it holds Python's \<open>None\<close> and raises \<open>AttributeError\<close> when it was never assigned.
\<close>

definition to_linear :: "Pqubit \<Rightarrow> py_error + int" where
  "to_linear self =
     (if valid_coord self then
        Inr (pq_z self + (pq_m self - 1) * (pq_k self + 12 * (pq_w self + pq_m self * pq_u self)))
      else
        (case check_str self of
           Unset \<Rightarrow> Inl AttributeError
         | PyNone \<Rightarrow> Inl (RuntimeError
             (''Attempted to convert from invalid coordinates:'' @ [CHR 0x0A] @ [CHR 0x27]
              @ ''None'' @ [CHR 0x27]))
         | PyStr s \<Rightarrow> Inl (RuntimeError
             (''Attempted to convert from invalid coordinates:'' @ [CHR 0x0A] @ [CHR 0x27]
              @ s @ [CHR 0x27]))))"

definition is_vert_coord :: "Pqubit \<Rightarrow> bool" where
  "is_vert_coord self = (pq_u self = 0)"

definition is_horz_coord :: "Pqubit \<Rightarrow> bool" where
  "is_horz_coord self = (pq_u self = 1)"

section \<open>Tile geometry\<close>

definition vert2horz :: "int \<Rightarrow> int \<Rightarrow> int \<times> int \<times> int" where
  "vert2horz w k =
     (let xv = 3 * w + (k div 4);
          yv = 2 + (2 * (k div 4)) mod 3;
          z2 = (xv - 1) div 3;
          w2 = yv div 3;
          k02 = (yv mod 3) * 4
      in (w2, k02, z2))"

definition horz2vert :: "int \<Rightarrow> int \<Rightarrow> int \<times> int \<times> int" where
  "horz2vert w k =
     (let xh = 1 + (2 * (k div 4 + 2)) mod 3;
          yh = 3 * w + (k div 4);
          z2 = (yh - 2) div 3;
          w2 = xh div 3;
          k02 = (xh mod 3) * 4
      in (w2, k02, z2))"

section \<open>Couplings\<close>

text \<open>
  \<open>internal_coupling(u, w, k, z, j)\<close>. The table reads are evaluated in the order of the
  source, \<open>d1\<close> before \<open>d2\<close>, and the first one that raises ends the call.
\<close>

definition internal_coupling ::
  "int \<Rightarrow> int \<Rightarrow> int \<Rightarrow> int \<Rightarrow> int \<Rightarrow> py_error + (int \<times> int \<times> int)" where
  "internal_coupling u w k z j =
     (if u = 0 then
        (case Pegasus0Shift_get (k div 2) of
           Inl e \<Rightarrow> Inl e
         | Inr s1 \<Rightarrow>
             (let d1 = (if j < s1 then 1 else 0) in
              case Pegasus0Shift_get (6 + (j div 2)) of
                Inl e \<Rightarrow> Inl e
              | Inr s2 \<Rightarrow>
                  (let d2 = (if k < s2 then 1 else 0) in
                   Inr (z + d1, j, w - d2))))
      else
        (case Pegasus0Shift_get (j div 2) of
           Inl e \<Rightarrow> Inl e
         | Inr s1 \<Rightarrow>
             (let d1 = (if k < s1 then 1 else 0) in
              case Pegasus0Shift_get (6 + (k div 2)) of
                Inl e \<Rightarrow> Inl e
              | Inr s2 \<Rightarrow>
                  (let d2 = (if j < s2 then 1 else 0) in
                   Inr (z + d2, j, w - d1)))))"

definition conn_external :: "Pqubit \<Rightarrow> int \<Rightarrow> bool option \<Rightarrow> py_error + Pqubit" where
  "conn_external self dz kwargs =
     Pqubit_kw (pq_m self) (pq_u self) (pq_w self) (pq_k self) (pq_z self + dz) kwargs"

definition conn_odd :: "Pqubit \<Rightarrow> bool option \<Rightarrow> py_error + Pqubit" where
  "conn_odd self kwargs =
     (let k2 = (if pq_k self mod 2 = 0 then pq_k self + 1 else pq_k self - 1)
      in Pqubit_kw (pq_m self) (pq_u self) (pq_w self) k2 (pq_z self) kwargs)"

definition conn_k44 :: "Pqubit \<Rightarrow> int \<Rightarrow> bool option \<Rightarrow> py_error + Pqubit" where
  "conn_k44 self dk kwargs =
     (case (if is_vert_coord self then vert2horz (pq_w self) (pq_k self)
            else horz2vert (pq_w self) (pq_k self)) of
        (w2, k02, z2) \<Rightarrow> Pqubit_kw (pq_m self) (1 - pq_u self) w2 (k02 + dk) z2 kwargs)"

text \<open>\<open>conn_internal\<close> takes no keywords: its result is always built with the default
  \<open>assert_valid=True\<close>.\<close>

definition conn_internal :: "Pqubit \<Rightarrow> int \<Rightarrow> py_error + Pqubit" where
  "conn_internal self dk =
     (case (if is_vert_coord self then vert2horz (pq_w self) (pq_k self)
            else horz2vert (pq_w self) (pq_k self)) of
        (_, k0_cluster, _) \<Rightarrow>
          (let j = (k0_cluster + dk) mod 12 in
           case internal_coupling (pq_u self) (pq_w self) (pq_k self) (pq_z self) j of
             Inl e \<Rightarrow> Inl e
           | Inr (w2, k2, z2) \<Rightarrow> Pqubit_init (pq_m self) (1 - pq_u self) w2 k2 z2 True))"

definition conn_internal_abs :: "Pqubit \<Rightarrow> int \<Rightarrow> bool option \<Rightarrow> py_error + Pqubit" where
  "conn_internal_abs self j kwargs =
     (case internal_coupling (pq_u self) (pq_w self) (pq_k self) (pq_z self) j of
        Inl e \<Rightarrow> Inl e
      | Inr (w2, k2, z2) \<Rightarrow> Pqubit_kw (pq_m self) (1 - pq_u self) w2 k2 z2 kwargs)"

text \<open>
  \<open>test_pqubit\<close>: the cycle the module asserts. Every call uses the defaults of the
  source (\<open>dz=1\<close>, no keywords), and an exception raised on the way ends the test.
\<close>

definition test_pqubit :: "py_error + unit" where
  "test_pqubit =
     (case Pqubit_init 3 0 0 2 0 True of Inl e \<Rightarrow> Inl e | Inr q1 \<Rightarrow>
      case conn_external q1 1 None of Inl e \<Rightarrow> Inl e | Inr q2 \<Rightarrow>
      case conn_internal q2 (- 4) of Inl e \<Rightarrow> Inl e | Inr q3 \<Rightarrow>
      case conn_internal q3 3 of Inl e \<Rightarrow> Inl e | Inr q4 \<Rightarrow>
      case conn_odd q4 None of Inl e \<Rightarrow> Inl e | Inr q5 \<Rightarrow>
      case conn_internal q5 (- 2) of Inl e \<Rightarrow> Inl e | Inr q6 \<Rightarrow>
      case conn_internal q6 0 of Inl e \<Rightarrow> Inl e | Inr q7 \<Rightarrow>
      case conn_internal q7 (- 5) of Inl e \<Rightarrow> Inl e | Inr q8 \<Rightarrow>
      case conn_internal q8 (- 2) of Inl e \<Rightarrow> Inl e | Inr q9 \<Rightarrow>
      if Pqubit_eq q1 q9 then Inr () else Inl AssertionError)"

text \<open>The object a successful strict construction leaves behind.\<close>

abbreviation strict_Pqubit :: "int \<Rightarrow> int \<Rightarrow> int \<Rightarrow> int \<Rightarrow> int \<Rightarrow> Pqubit" where
  "strict_Pqubit m u w k z \<equiv>
     \<lparr>pq_m = m, pq_u = u, pq_w = w, pq_k = k, pq_z = z, valid_coord = True,
      check_str = Unset\<rparr>"

section \<open>Facts about construction and arithmetic\<close>

lemma check_if_not_valid_None_iff:
  "check_if_not_valid m u w k z = None \<longleftrightarrow>
     1 \<le> m \<and> (u = 0 \<or> u = 1) \<and> 0 \<le> w \<and> w \<le> m - 1 \<and> 0 \<le> k \<and> k \<le> 11 \<and>
     0 \<le> z \<and> z \<le> m - 2"
  by (auto simp: check_if_not_valid_def)

lemma Pqubit_init_valid_iff:
  "Pqubit_init m u w k z av = Inr q \<and> valid_coord q \<longleftrightarrow>
     check_if_not_valid m u w k z = None \<and>
     q = \<lparr>pq_m = m, pq_u = u, pq_w = w, pq_k = k, pq_z = z, valid_coord = True,
          check_str = (if av then Unset else PyNone)\<rparr>"
  by (cases "check_if_not_valid m u w k z"; cases av) (auto simp: Pqubit_init_def Let_def)

lemma digit_unique:
  fixes a b x y n :: int
  assumes "0 \<le> a" "a < n" "0 \<le> b" "b < n" "a + n * x = b + n * y"
  shows "a = b \<and> x = y"
proof -
  have n: "0 < n" using assms by linarith
  have "a = (a + n * x) mod n" using assms(1,2) by simp
  also have "\<dots> = (b + n * y) mod n" using assms(5) by (rule arg_cong)
  also have "\<dots> = b" using assms(3,4) by simp
  finally have ab: "a = b" .
  from assms(5) ab have "n * x = n * y" by simp
  with n have "x = y" by simp
  with ab show ?thesis by simp
qed

lemma digit_bound:
  fixes a x n c :: int
  assumes "0 \<le> a" "a \<le> n - 1" "0 \<le> x" "x \<le> c - 1"
  shows "0 \<le> a + n * x \<and> a + n * x \<le> n * c - 1"
proof -
  have n: "0 \<le> n" using assms by linarith
  define P where "P = n * x"
  define Q where "Q = n * c"
  have P0: "0 \<le> P" using n assms(3) by (simp add: P_def)
  have "n * x \<le> n * (c - 1)" using n assms(4) by (rule mult_left_mono [rotated])
  then have "P \<le> Q - n" by (simp add: P_def Q_def right_diff_distrib)
  with P0 assms(1,2) have "0 \<le> a + P \<and> a + P \<le> Q - 1" by linarith
  then show ?thesis by (simp add: P_def Q_def)
qed

lemma div_less_bound:
  fixes i n c :: int
  assumes "0 < n" "i < c * n"
  shows "i div n < c"
proof (rule ccontr)
  assume "\<not> i div n < c"
  then have "c \<le> i div n" by simp
  then have "c * n \<le> (i div n) * n" using assms(1) by (simp add: mult_right_mono)
  moreover have "i = (i div n) * n + i mod n" by simp
  moreover have "0 \<le> i mod n" using assms(1) by simp
  ultimately have "c * n \<le> i" by linarith
  with assms(2) show False by simp
qed

lemma linear_index_inj:
  fixes M :: int
  assumes "0 \<le> z" "z \<le> M - 2" "0 \<le> z'" "z' \<le> M - 2"
    and "0 \<le> k" "k \<le> 11" "0 \<le> k'" "k' \<le> 11"
    and "0 \<le> w" "w \<le> M - 1" "0 \<le> w'" "w' \<le> M - 1"
    and "z + (M - 1) * (k + 12 * (w + M * u)) = z' + (M - 1) * (k' + 12 * (w' + M * u'))"
  shows "z = z' \<and> k = k' \<and> w = w' \<and> u = u'"
proof -
  have d1: "z = z' \<and> k + 12 * (w + M * u) = k' + 12 * (w' + M * u')"
    using digit_unique [of z "M - 1" z'] assms by simp
  have d2: "k = k' \<and> w + M * u = w' + M * u'"
    using digit_unique [of k 12 k' "w + M * u" "w' + M * u'"] d1 assms by simp
  have d3: "w = w' \<and> u = u'"
    using digit_unique [of w M w' u u'] d2 assms by simp
  from d1 d2 d3 show ?thesis by simp
qed

lemma linear_index_range:
  fixes M :: int
  assumes "0 \<le> z" "z \<le> M - 2" "0 \<le> k" "k \<le> 11" "0 \<le> w" "w \<le> M - 1" "u = 0 \<or> u = 1"
  shows "0 \<le> z + (M - 1) * (k + 12 * (w + M * u)) \<and>
         z + (M - 1) * (k + 12 * (w + M * u)) < 24 * M * (M - 1)"
proof -
  have u: "0 \<le> u" "u \<le> 2 - 1" using assms(7) by auto
  have B: "0 \<le> w + M * u \<and> w + M * u \<le> M * 2 - 1"
    using assms(5,6) u by (rule digit_bound)
  have k: "k \<le> 12 - 1" using assms(4) by simp
  have B': "w + M * u \<le> 2 * M - 1" using B by simp
  have A: "0 \<le> k + 12 * (w + M * u) \<and> k + 12 * (w + M * u) \<le> 12 * (2 * M) - 1"
    using assms(3) k conjunct1 [OF B] B' by (rule digit_bound)
  have z: "z \<le> (M - 1) - 1" using assms(2) by simp
  have A': "k + 12 * (w + M * u) \<le> 24 * M - 1" using A by simp
  have "0 \<le> z + (M - 1) * (k + 12 * (w + M * u)) \<and>
        z + (M - 1) * (k + 12 * (w + M * u)) \<le> (M - 1) * (24 * M) - 1"
    using assms(1) z conjunct1 [OF A] A' by (rule digit_bound)
  moreover have "(M - 1) * (24 * M) = 24 * M * (M - 1)" by simp
  ultimately show ?thesis by simp
qed

lemma linear_index_surj:
  fixes M i :: int
  assumes "0 \<le> i" "i < 24 * M * (M - 1)" "1 \<le> M"
  shows "\<exists>u w k z. (u = 0 \<or> u = 1) \<and> 0 \<le> w \<and> w \<le> M - 1 \<and> 0 \<le> k \<and> k \<le> 11 \<and>
           0 \<le> z \<and> z \<le> M - 2 \<and> i = z + (M - 1) * (k + 12 * (w + M * u))"
proof -
  have n: "0 < M - 1"
  proof (rule ccontr)
    assume "\<not> 0 < M - 1"
    with assms(3) have "M = 1" by linarith
    with assms show False by simp
  qed
  have M: "0 < M" using assms(3) by simp
  define A where "A = i div (M - 1)"
  define B where "B = A div 12"
  have i: "i = i mod (M - 1) + (M - 1) * A" by (simp add: A_def)
  have a: "A = A mod 12 + 12 * B" by (simp add: B_def)
  have b: "B = B mod M + M * (B div M)" by simp
  have A0: "0 \<le> A" using assms n by (simp add: A_def pos_imp_zdiv_nonneg_iff)
  have B0: "0 \<le> B" using A0 by (simp add: B_def pos_imp_zdiv_nonneg_iff)
  have u0: "0 \<le> B div M" using B0 M by (simp add: pos_imp_zdiv_nonneg_iff)
  have "i < (24 * M) * (M - 1)" using assms by simp
  with n have A1: "A < 24 * M" unfolding A_def by (rule div_less_bound)
  then have "A < (2 * M) * 12" by simp
  then have B1: "B < 2 * M" unfolding B_def by (rule div_less_bound [rotated]) simp
  then have "B < 2 * M" by simp
  with M have u1: "B div M < 2" by (rule div_less_bound)
  have z: "0 \<le> i mod (M - 1)" "i mod (M - 1) \<le> M - 2"
    using pos_mod_sign [OF n, of i] pos_mod_bound [OF n, of i] by linarith+
  have k: "0 \<le> A mod 12" "A mod 12 \<le> 11"
    by simp_all
  have w: "0 \<le> B mod M" "B mod M \<le> M - 1"
    using pos_mod_sign [OF M, of B] pos_mod_bound [OF M, of B] by linarith+
  have u: "B div M = 0 \<or> B div M = 1" using u0 u1 by linarith
  have "i = i mod (M - 1) + (M - 1) * (A mod 12 + 12 * (B mod M + M * (B div M)))"
    using i a b by simp
  with u w k z show ?thesis by blast
qed

lemma Pqubit_init_valid:
  assumes "check_if_not_valid m u w k z = None"
  shows "Pqubit_init m u w k z av =
           Inr \<lparr>pq_m = m, pq_u = u, pq_w = w, pq_k = k, pq_z = z, valid_coord = True,
                check_str = (if av then Unset else PyNone)\<rparr>"
  using assms by (simp add: Pqubit_init_def)


lemma Pegasus0Shift_get_in_range:
  assumes "0 \<le> i" "i \<le> 11"
  shows "Pegasus0Shift_get i = Inr (Pegasus0Shift ! nat i)"
  using assms by (simp add: Pegasus0Shift_get_def Pegasus0Shift_def)

lemma slot_halves:
  fixes k :: int
  assumes "0 \<le> k" "k \<le> 11"
  shows "0 \<le> k div 2" "k div 2 \<le> 11" "0 \<le> 6 + k div 2" "6 + k div 2 \<le> 11"
  using assms by presburger+


lemma vert2horz_cluster:
  "vert2horz w 0 = (0, 8, (3 * w - 1) div 3)"
  "vert2horz w 4 = (1, 4, (3 * w + 1 - 1) div 3)"
  "vert2horz w 8 = (1, 0, (3 * w + 2 - 1) div 3)"
  by (simp_all add: vert2horz_def Let_def)

lemma horz2vert_cluster:
  "horz2vert w 0 = (0, 8, (3 * w - 2) div 3)"
  "horz2vert w 4 = (0, 4, (3 * w + 1 - 2) div 3)"
  "horz2vert w 8 = (1, 0, (3 * w + 2 - 2) div 3)"
  by (simp_all add: horz2vert_def Let_def)


lemma str_int_small:
  "str_int 0 = ''0''" "str_int 1 = ''1''" "str_int (- 1) = ''-1''"
  by (simp_all add: str_int_def str_nat.simps)

lemma Pqubit_init_strict:
  "Pqubit_init m u w k z True =
     (case check_if_not_valid m u w k z of
        Some msg \<Rightarrow> Inl (ValueError msg)
      | None \<Rightarrow> Inr (strict_Pqubit m u w k z))"
  by (simp add: Pqubit_init_def)

lemma Pqubit_init_nonstrict:
  "Pqubit_init m u w k z False =
     Inr \<lparr>pq_m = m, pq_u = u, pq_w = w, pq_k = k, pq_z = z,
          valid_coord = (check_if_not_valid m u w k z = None),
          check_str = (case check_if_not_valid m u w k z of
                         Some msg \<Rightarrow> PyStr msg | None \<Rightarrow> PyNone)\<rparr>"
  by (cases "check_if_not_valid m u w k z") (simp_all add: Pqubit_init_def)




section \<open>The linear index\<close>

text \<open>
  C1. For every size \<open>M \<ge> 1\<close>: on each valid address of that size \<open>to_linear\<close> returns
  \<open>z + (M - 1) * (k + 12 * (w + M * bit))\<close>, where \<open>bit\<close> is \<open>0\<close> for a vertical and \<open>1\<close>
  for a horizontal address; two valid addresses of size \<open>M\<close> with the same index are
  equal under \<open>__eq__\<close>; and the indices of the valid addresses of size \<open>M\<close> are exactly
  the integers from \<open>0\<close> up to, not including, \<open>24 * M * (M - 1)\<close>. A valid address is
  an object the constructor returns with \<open>_valid_coord\<close> set.
\<close>

theorem to_linear_bijective:
  assumes "1 \<le> M"
  shows
    "(\<forall>u w k z av q. Pqubit_init M u w k z av = Inr q \<and> valid_coord q \<longrightarrow>
        to_linear q =
          Inr (z + (M - 1) * (k + 12 * (w + M * (if is_vert_coord q then 0 else 1))))) \<and>
     (\<forall>u w k z av q u' w' k' z' av' q'.
        Pqubit_init M u w k z av = Inr q \<and> valid_coord q \<and>
        Pqubit_init M u' w' k' z' av' = Inr q' \<and> valid_coord q' \<and>
        to_linear q = to_linear q' \<longrightarrow> Pqubit_eq q q') \<and>
     {i. \<exists>u w k z av q. Pqubit_init M u w k z av = Inr q \<and> valid_coord q \<and>
           to_linear q = Inr i} = {0 ..< 24 * M * (M - 1)}"
proof (intro conjI allI impI)
  fix u w k z av q
  assume "Pqubit_init M u w k z av = Inr q \<and> valid_coord q"
  then have c: "check_if_not_valid M u w k z = None"
    and q: "q = \<lparr>pq_m = M, pq_u = u, pq_w = w, pq_k = k, pq_z = z, valid_coord = True,
                  check_str = (if av then Unset else PyNone)\<rparr>"
    by (simp_all add: Pqubit_init_valid_iff)
  from c have "u = 0 \<or> u = 1" by (simp add: check_if_not_valid_None_iff)
  then show "to_linear q =
      Inr (z + (M - 1) * (k + 12 * (w + M * (if is_vert_coord q then 0 else 1))))"
    by (auto simp: q to_linear_def is_vert_coord_def)
next
  fix u w k z av q u' w' k' z' av' q'
  assume a: "Pqubit_init M u w k z av = Inr q \<and> valid_coord q \<and>
             Pqubit_init M u' w' k' z' av' = Inr q' \<and> valid_coord q' \<and>
             to_linear q = to_linear q'"
  then have "Pqubit_init M u w k z av = Inr q \<and> valid_coord q"
    and "Pqubit_init M u' w' k' z' av' = Inr q' \<and> valid_coord q'"
    by simp_all
  then have c: "check_if_not_valid M u w k z = None"
    and q: "q = \<lparr>pq_m = M, pq_u = u, pq_w = w, pq_k = k, pq_z = z, valid_coord = True,
                  check_str = (if av then Unset else PyNone)\<rparr>"
    and c': "check_if_not_valid M u' w' k' z' = None"
    and q': "q' = \<lparr>pq_m = M, pq_u = u', pq_w = w', pq_k = k', pq_z = z', valid_coord = True,
                  check_str = (if av' then Unset else PyNone)\<rparr>"
    by (simp_all add: Pqubit_init_valid_iff)
  from a have "z + (M - 1) * (k + 12 * (w + M * u)) = z' + (M - 1) * (k' + 12 * (w' + M * u'))"
    by (simp add: q q' to_linear_def)
  with c c' have "z = z' \<and> k = k' \<and> w = w' \<and> u = u'"
    by (intro linear_index_inj [of z M z' k k' w w' u u'])
       (simp_all add: check_if_not_valid_None_iff)
  then show "Pqubit_eq q q'" by (simp add: q q' Pqubit_eq_def)
next
  show "{i. \<exists>u w k z av q. Pqubit_init M u w k z av = Inr q \<and> valid_coord q \<and>
           to_linear q = Inr i} = {0 ..< 24 * M * (M - 1)}"
  proof (intro set_eqI iffI)
    fix i
    assume "i \<in> {i. \<exists>u w k z av q. Pqubit_init M u w k z av = Inr q \<and> valid_coord q \<and>
           to_linear q = Inr i}"
    then obtain u w k z av q where
      iq: "Pqubit_init M u w k z av = Inr q \<and> valid_coord q" and l: "to_linear q = Inr i"
      by blast
    from iq have c: "check_if_not_valid M u w k z = None"
      and q: "q = \<lparr>pq_m = M, pq_u = u, pq_w = w, pq_k = k, pq_z = z, valid_coord = True,
                  check_str = (if av then Unset else PyNone)\<rparr>"
      by (simp_all add: Pqubit_init_valid_iff)
    from l have i: "i = z + (M - 1) * (k + 12 * (w + M * u))"
      by (simp add: q to_linear_def)
    from c have "0 \<le> z + (M - 1) * (k + 12 * (w + M * u)) \<and>
         z + (M - 1) * (k + 12 * (w + M * u)) < 24 * M * (M - 1)"
      by (intro linear_index_range) (simp_all add: check_if_not_valid_None_iff)
    with i show "i \<in> {0 ..< 24 * M * (M - 1)}" by simp
  next
    fix i
    assume "i \<in> {0 ..< 24 * M * (M - 1)}"
    then have "0 \<le> i" "i < 24 * M * (M - 1)" by simp_all
    from linear_index_surj [OF this assms] obtain u w k z where
      r: "u = 0 \<or> u = 1" "0 \<le> w" "w \<le> M - 1" "0 \<le> k" "k \<le> 11" "0 \<le> z" "z \<le> M - 2"
      and i: "i = z + (M - 1) * (k + 12 * (w + M * u))"
      by blast
    from r assms have c: "check_if_not_valid M u w k z = None"
      by (simp add: check_if_not_valid_None_iff)
    then have "Pqubit_init M u w k z True = Inr (strict_Pqubit M u w k z)"
      by (simp add: Pqubit_init_def)
    moreover have "to_linear (strict_Pqubit M u w k z) = Inr i"
      by (simp add: to_linear_def i)
    ultimately have "\<exists>u w k z av q. Pqubit_init M u w k z av = Inr q \<and> valid_coord q \<and>
           to_linear q = Inr i"
      by (intro exI [of _ u] exI [of _ w] exI [of _ k] exI [of _ z] exI [of _ True]
                exI [of _ "strict_Pqubit M u w k z"]) simp
    then show "i \<in> {i. \<exists>u w k z av q. Pqubit_init M u w k z av = Inr q \<and> valid_coord q \<and>
           to_linear q = Inr i}" by simp
  qed
qed

theorem to_linear_bijective_witness:
  "(1::int) \<le> 2 \<and>
   Pqubit_init 2 1 1 11 0 True = Inr (strict_Pqubit 2 1 1 11 0) \<and>
   to_linear (strict_Pqubit 2 1 1 11 0) = Inr 47 \<and>
   {i. \<exists>u w k z av q. Pqubit_init 2 u w k z av = Inr q \<and> valid_coord q \<and>
         to_linear q = Inr i} = {0 ..< 48}"
proof -
  have h: "(1::int) \<le> 2" by simp
  have i: "Pqubit_init 2 1 1 11 0 True = Inr (strict_Pqubit 2 1 1 11 0)"
    by (simp add: Pqubit_init_def check_if_not_valid_def)
  have v: "valid_coord (strict_Pqubit 2 1 1 11 0)" by simp
  note t = to_linear_bijective [OF h]
  have l: "to_linear (strict_Pqubit 2 1 1 11 0) = Inr 47"
    using conjunct1 [OF t, rule_format, of 1 1 11 0 True "strict_Pqubit 2 1 1 11 0"] i v
    by (simp add: is_vert_coord_def)
  have s: "{i. \<exists>u w k z av q. Pqubit_init 2 u w k z av = Inr q \<and> valid_coord q \<and>
         to_linear q = Inr i} = {0 ..< 48}"
    using conjunct2 [OF conjunct2 [OF t]] by simp
  from h i l s show ?thesis by simp
qed

section \<open>The closed loop of the module's test\<close>

text \<open>
  C2. Starting from the address \<open>(size 3, vertical, w = 0, k = 2, z = 0)\<close>, the calls
  \<open>external(+1)\<close>, \<open>internal(-4)\<close>, \<open>internal(3)\<close>, \<open>odd()\<close>, \<open>internal(-2)\<close>,
  \<open>internal(0)\<close>, \<open>internal(-5)\<close>, \<open>internal(-2)\<close> each return an address, the last one
  equal to the first in all five fields; so the assertion of \<open>test_pqubit\<close> holds.
\<close>

theorem test_pqubit_closed_loop:
  "Pqubit_init 3 0 0 2 0 True = Inr (strict_Pqubit 3 0 0 2 0) \<and>
   conn_external (strict_Pqubit 3 0 0 2 0) 1 None = Inr (strict_Pqubit 3 0 0 2 1) \<and>
   conn_internal (strict_Pqubit 3 0 0 2 1) (- 4) = Inr (strict_Pqubit 3 1 1 4 0) \<and>
   conn_internal (strict_Pqubit 3 1 1 4 0) 3 = Inr (strict_Pqubit 3 0 0 7 0) \<and>
   conn_odd (strict_Pqubit 3 0 0 7 0) None = Inr (strict_Pqubit 3 0 0 6 0) \<and>
   conn_internal (strict_Pqubit 3 0 0 6 0) (- 2) = Inr (strict_Pqubit 3 1 1 2 0) \<and>
   conn_internal (strict_Pqubit 3 1 1 2 0) 0 = Inr (strict_Pqubit 3 0 0 8 0) \<and>
   conn_internal (strict_Pqubit 3 0 0 8 0) (- 5) = Inr (strict_Pqubit 3 1 0 7 0) \<and>
   conn_internal (strict_Pqubit 3 1 0 7 0) (- 2) = Inr (strict_Pqubit 3 0 0 2 0) \<and>
   Pqubit_eq (strict_Pqubit 3 0 0 2 0) (strict_Pqubit 3 0 0 2 0) \<and>
   test_pqubit = Inr ()"
  by (simp add: test_pqubit_def Pqubit_init_def Pqubit_kw_def check_if_not_valid_def
        conn_external_def conn_odd_def conn_internal_def internal_coupling_def
        is_vert_coord_def vert2horz_def horz2vert_def Pegasus0Shift_get_def Pegasus0Shift_def
        Pqubit_eq_def Let_def)

section \<open>Tile geometry: the cluster slot\<close>

text \<open>
  C9. For every \<open>(w, k)\<close> with \<open>0 \<le> k \<le> 11\<close>, the \<open>k0\<close> component (the second one) that
  \<open>vert2horz w k\<close> and \<open>horz2vert w k\<close> return is one of \<open>0\<close>, \<open>4\<close>, \<open>8\<close>.
\<close>

theorem k0_cluster_multiple_of_four:
  assumes "0 \<le> k" and "k \<le> 11"
  shows "fst (snd (vert2horz w k)) \<in> {0, 4, 8} \<and> fst (snd (horz2vert w k)) \<in> {0, 4, 8}"
proof -
  have c: "k div 4 = 0 \<or> k div 4 = 1 \<or> k div 4 = 2"
    using assms by presburger
  have v: "fst (snd (vert2horz w k)) \<in> {0, 4, 8}"
    using c by (auto simp: vert2horz_def Let_def)
  have h: "fst (snd (horz2vert w k)) \<in> {0, 4, 8}"
    using c by (auto simp: horz2vert_def Let_def)
  from v h show ?thesis by simp
qed

theorem k0_cluster_multiple_of_four_witness:
  "(0::int) \<le> 6 \<and> (6::int) \<le> 11 \<and>
   fst (snd (vert2horz 0 6)) = 4 \<and> fst (snd (horz2vert 1 2)) = 8 \<and>
   fst (snd (vert2horz 0 6)) \<in> {0, 4, 8} \<and> fst (snd (horz2vert 0 6)) \<in> {0, 4, 8}"
  using k0_cluster_multiple_of_four [of 6 0]
  by (simp add: vert2horz_def horz2vert_def Let_def)

section \<open>The parity-corrected coupling\<close>

text \<open>
  C3, as stated: for a vertical input the coupling returns \<open>(w - d2, j, z + d1)\<close>. At
  \<open>u = 0, w = 0, k = 2, z = 1, j = 4\<close> both corrections are \<open>0\<close>, so the stated triple
  is \<open>(0, 4, 1)\<close>, while the function returns \<open>(1, 4, 0)\<close>: the first component is built
  from \<open>z\<close> and the third from \<open>w\<close>.
\<close>

theorem internal_coupling_counterexample:
  "internal_coupling 0 0 2 1 4 = Inr (1, 4, 0) \<and>
   internal_coupling 0 0 2 1 4 \<noteq>
     Inr (0 - (if (2::int) < Pegasus0Shift ! nat (6 + 4 div 2) then 1 else 0), 4,
          1 + (if (4::int) < Pegasus0Shift ! nat (2 div 2) then 1 else 0))"
  by (simp add: internal_coupling_def Pegasus0Shift_get_def Pegasus0Shift_def)


text \<open>
  C3, amended. For slots \<open>k\<close> and \<open>j\<close> in \<open>[0, 11]\<close>: when \<open>u = 0\<close> the coupling returns
  \<open>(z + d1, j, w - d2)\<close> with \<open>d1 = 1\<close> iff \<open>j < Pegasus0Shift[k // 2]\<close> and \<open>d2 = 1\<close> iff
  \<open>k < Pegasus0Shift[6 + j // 2]\<close>; for every other \<open>u\<close> it returns \<open>(z + d2, j, w - d1)\<close>
  with \<open>d1 = 1\<close> iff \<open>k < Pegasus0Shift[j // 2]\<close> and \<open>d2 = 1\<close> iff
  \<open>j < Pegasus0Shift[6 + k // 2]\<close>.
\<close>

theorem internal_coupling_result:
  assumes "0 \<le> k" "k \<le> 11" "0 \<le> j" "j \<le> 11"
  shows
    "(u = 0 \<longrightarrow>
        internal_coupling u w k z j =
          Inr (z + (if j < Pegasus0Shift ! nat (k div 2) then 1 else 0), j,
               w - (if k < Pegasus0Shift ! nat (6 + j div 2) then 1 else 0))) \<and>
     (u \<noteq> 0 \<longrightarrow>
        internal_coupling u w k z j =
          Inr (z + (if j < Pegasus0Shift ! nat (6 + k div 2) then 1 else 0), j,
               w - (if k < Pegasus0Shift ! nat (j div 2) then 1 else 0)))"
proof -
  have g: "Pegasus0Shift_get (k div 2) = Inr (Pegasus0Shift ! nat (k div 2))"
    "Pegasus0Shift_get (6 + j div 2) = Inr (Pegasus0Shift ! nat (6 + j div 2))"
    "Pegasus0Shift_get (j div 2) = Inr (Pegasus0Shift ! nat (j div 2))"
    "Pegasus0Shift_get (6 + k div 2) = Inr (Pegasus0Shift ! nat (6 + k div 2))"
    using slot_halves [OF assms(1,2)] slot_halves [OF assms(3,4)]
    by (simp_all add: Pegasus0Shift_get_in_range)
  show ?thesis
    by (simp add: internal_coupling_def g Let_def)
qed

theorem internal_coupling_result_witness:
  "(0::int) \<le> 4 \<and> (4::int) \<le> 11 \<and> (0::int) \<le> 7 \<and> (7::int) \<le> 11 \<and>
   internal_coupling 1 1 4 0 7 = Inr (0, 7, 0) \<and>
   internal_coupling 0 1 4 0 7 = Inr (1, 7, 1)"
  using internal_coupling_result [of 4 7 1 1 0] internal_coupling_result [of 4 7 0 1 0]
  by (simp add: Pegasus0Shift_def)

section \<open>\<open>conn_k44\<close> against \<open>conn_internal\<close>\<close>

text \<open>
  C4 at the valid address \<open>(size 3, vertical, w = 1, k = 0, z = 1)\<close> with \<open>dk = 0\<close>:
  \<open>conn_k44\<close> returns the horizontal address \<open>(w = 0, k = 8, z = 0)\<close> and
  \<open>conn_internal\<close> the horizontal address \<open>(w = 1, k = 8, z = 0)\<close>, which \<open>__eq__\<close>
  tells apart.
\<close>

theorem conn_k44_conn_internal_differ:
  "Pqubit_init 3 0 1 0 1 True = Inr (strict_Pqubit 3 0 1 0 1) \<and>
   conn_k44 (strict_Pqubit 3 0 1 0 1) 0 None = Inr (strict_Pqubit 3 1 0 8 0) \<and>
   conn_internal (strict_Pqubit 3 0 1 0 1) 0 = Inr (strict_Pqubit 3 1 1 8 0) \<and>
   \<not> Pqubit_eq (strict_Pqubit 3 1 0 8 0) (strict_Pqubit 3 1 1 8 0)"
  by (simp add: Pqubit_init_def Pqubit_kw_def check_if_not_valid_def
        conn_k44_def conn_internal_def internal_coupling_def
        is_vert_coord_def vert2horz_def horz2vert_def Pegasus0Shift_get_def Pegasus0Shift_def
        Pqubit_eq_def Let_def)

section \<open>Round trip of the tile geometry\<close>

text \<open>
  C5, as stated: \<open>vert2horz\<close> followed by \<open>horz2vert\<close> returns the pair \<open>(w, k)\<close>. At
  \<open>(w, k) = (0, 0)\<close> the composition returns \<open>(1, 0, 0)\<close>, whose first two components
  are \<open>(1, 0)\<close>.
\<close>

theorem tile_round_trip_counterexample:
  "(case vert2horz 0 0 of (w2, k0, z2) \<Rightarrow> horz2vert w2 k0) = (1, 0, 0) \<and>
   (case vert2horz 0 0 of (w2, k0, z2) \<Rightarrow> (fst (horz2vert w2 k0), fst (snd (horz2vert w2 k0))))
     \<noteq> (0, 0)"
  by (simp add: vert2horz_def horz2vert_def Let_def)


text \<open>
  C5, amended. For every \<open>w\<close> and every \<open>k\<close> in \<open>[0, 11]\<close> with \<open>k mod 4 = 0\<close>:
  \<open>vert2horz\<close> followed by \<open>horz2vert\<close> (on the returned \<open>w2\<close> and \<open>k0\<close>) returns the
  slot \<open>k\<close> unchanged, the offset \<open>1\<close> if \<open>k = 0\<close> and \<open>0\<close> otherwise, and \<open>z2 = 0\<close>;
  \<open>horz2vert\<close> followed by \<open>vert2horz\<close> returns the slot \<open>k\<close> unchanged, the offset \<open>0\<close>
  if \<open>k = 8\<close> and \<open>1\<close> otherwise, and \<open>z2 = 0\<close>. The offset returned does not depend on
  \<open>w\<close>.
\<close>

theorem tile_round_trip_slot:
  assumes "0 \<le> k" "k \<le> 11" "k mod 4 = 0"
  shows
    "(case vert2horz w k of (w2, k0, z2) \<Rightarrow> horz2vert w2 k0) = (if k = 0 then 1 else 0, k, 0) \<and>
     (case horz2vert w k of (w2, k0, z2) \<Rightarrow> vert2horz w2 k0) = (if k = 8 then 0 else 1, k, 0)"
proof -
  have "k = 0 \<or> k = 4 \<or> k = 8" using assms by presburger
  then show ?thesis
  proof (elim disjE)
    assume "k = 0"
    then show ?thesis by (simp add: vert2horz_cluster horz2vert_cluster)
  next
    assume "k = 4"
    then show ?thesis by (simp add: vert2horz_cluster horz2vert_cluster)
  next
    assume "k = 8"
    then show ?thesis by (simp add: vert2horz_cluster horz2vert_cluster)
  qed
qed

theorem tile_round_trip_slot_witness:
  "(0::int) \<le> 4 \<and> (4::int) \<le> 11 \<and> (4::int) mod 4 = 0 \<and>
   (case vert2horz 2 4 of (w2, k0, z2) \<Rightarrow> horz2vert w2 k0) = (0, 4, 0) \<and>
   (case horz2vert 2 4 of (w2, k0, z2) \<Rightarrow> vert2horz w2 k0) = (1, 4, 0)"
  using tile_round_trip_slot [of 4 2] by simp

section \<open>The odd coupling\<close>

text \<open>
  C10. For every valid address and whatever keywords the two calls pass, \<open>conn_odd\<close>
  returns an address, \<open>conn_odd\<close> on that address returns one equal to the original
  under \<open>__eq__\<close>, and the first result has the size, orientation, \<open>w\<close> and \<open>z\<close> of the
  original and the slot \<open>k + 1\<close> when \<open>k\<close> is even, \<open>k - 1\<close> when \<open>k\<close> is odd.
\<close>

theorem conn_odd_involution:
  assumes "Pqubit_init m u w k z av = Inr q" and "valid_coord q"
  shows "\<exists>q1 q2. conn_odd q kw1 = Inr q1 \<and> conn_odd q1 kw2 = Inr q2 \<and> Pqubit_eq q2 q \<and>
           pq_m q1 = pq_m q \<and> pq_u q1 = pq_u q \<and> pq_w q1 = pq_w q \<and> pq_z q1 = pq_z q \<and>
           pq_k q1 = (if pq_k q mod 2 = 0 then pq_k q + 1 else pq_k q - 1)"
proof -
  from assms have c: "check_if_not_valid m u w k z = None"
    and q: "q = \<lparr>pq_m = m, pq_u = u, pq_w = w, pq_k = k, pq_z = z, valid_coord = True,
                  check_str = (if av then Unset else PyNone)\<rparr>"
    using Pqubit_init_valid_iff [of m u w k z av q] by simp_all
  define k1 where "k1 = (if k mod 2 = 0 then k + 1 else k - 1)"
  define b1 where "b1 = (case kw1 of None \<Rightarrow> True | Some b \<Rightarrow> b)"
  define b2 where "b2 = (case kw2 of None \<Rightarrow> True | Some b \<Rightarrow> b)"
  define q1 where "q1 = \<lparr>pq_m = m, pq_u = u, pq_w = w, pq_k = k1, pq_z = z, valid_coord = True,
                  check_str = (if b1 then Unset else PyNone)\<rparr>"
  define q2 where "q2 = \<lparr>pq_m = m, pq_u = u, pq_w = w, pq_k = k, pq_z = z, valid_coord = True,
                  check_str = (if b2 then Unset else PyNone)\<rparr>"
  from c have r: "1 \<le> m" "u = 0 \<or> u = 1" "0 \<le> w" "w \<le> m - 1" "0 \<le> k" "k \<le> 11"
    "0 \<le> z" "z \<le> m - 2"
    by (simp_all add: check_if_not_valid_None_iff)
  have k1: "0 \<le> k1" "k1 \<le> 11" using r(5,6) unfolding k1_def by presburger+
  have bk: "(if k1 mod 2 = 0 then k1 + 1 else k1 - 1) = k" unfolding k1_def by presburger
  from r k1 have c1: "check_if_not_valid m u w k1 z = None"
    by (simp add: check_if_not_valid_None_iff)
  have "conn_odd q kw1 = Pqubit_init m u w k1 z b1"
    by (simp add: conn_odd_def Pqubit_kw_def q k1_def b1_def)
  then have s1: "conn_odd q kw1 = Inr q1"
    by (simp add: Pqubit_init_valid [OF c1] q1_def)
  have "conn_odd q1 kw2 =
          Pqubit_init m u w (if k1 mod 2 = 0 then k1 + 1 else k1 - 1) z b2"
    by (simp add: conn_odd_def Pqubit_kw_def q1_def b2_def)
  then have "conn_odd q1 kw2 = Pqubit_init m u w k z b2"
    by (simp only: bk)
  then have s2: "conn_odd q1 kw2 = Inr q2"
    by (simp add: Pqubit_init_valid [OF c] q2_def)
  have e: "Pqubit_eq q2 q" by (simp add: Pqubit_eq_def q q2_def)
  have f: "pq_m q1 = pq_m q \<and> pq_u q1 = pq_u q \<and> pq_w q1 = pq_w q \<and> pq_z q1 = pq_z q \<and>
           pq_k q1 = (if pq_k q mod 2 = 0 then pq_k q + 1 else pq_k q - 1)"
    by (simp add: q q1_def k1_def)
  from s1 s2 e f show ?thesis by blast
qed

theorem conn_odd_involution_witness:
  "Pqubit_init 3 0 0 7 0 True = Inr (strict_Pqubit 3 0 0 7 0) \<and>
   valid_coord (strict_Pqubit 3 0 0 7 0) \<and>
   (\<exists>q1 q2. conn_odd (strict_Pqubit 3 0 0 7 0) None = Inr q1 \<and> conn_odd q1 None = Inr q2 \<and>
      Pqubit_eq q2 (strict_Pqubit 3 0 0 7 0) \<and> pq_k q1 = 6)"
proof -
  have i: "Pqubit_init 3 0 0 7 0 True = Inr (strict_Pqubit 3 0 0 7 0)"
    by (simp add: Pqubit_init_def check_if_not_valid_def)
  have v: "valid_coord (strict_Pqubit 3 0 0 7 0)" by simp
  from conn_odd_involution [OF i v, of None None] i v show ?thesis by auto
qed

section \<open>Strict construction\<close>

text \<open>
  C7. A strict construction checks \<open>m\<close>, \<open>u\<close>, \<open>w\<close>, \<open>k\<close>, \<open>z\<close> in this order and raises
  \<open>ValueError\<close> with the message of the first rule that fails; when all five rules
  hold it returns the object. With \<open>m = 1\<close> the construction fails for every input: the
  \<open>w\<close> rule passes only for \<open>w = 0\<close>, and then the \<open>z\<close> rule fails whatever \<open>z\<close> is, its
  range being \<open>[0, -1]\<close>. The slots \<open>12\<close> and \<open>-1\<close> and the size \<open>0\<close> fail.
\<close>

theorem strict_validation_order:
  "(\<not> 1 \<le> m \<longrightarrow>
      Pqubit_init m u w k z True =
        Inl (ValueError (''Invalid m: '' @ str_int m @ ''. (Must be an integer greater than 0)''))) \<and>
   (1 \<le> m \<and> \<not> (u = 0 \<or> u = 1) \<longrightarrow>
      Pqubit_init m u w k z True =
        Inl (ValueError (''Invalid u: '' @ str_int u @ ''. (Valid range is 0 or 1)''))) \<and>
   (1 \<le> m \<and> (u = 0 \<or> u = 1) \<and> \<not> (0 \<le> w \<and> w \<le> m - 1) \<longrightarrow>
      Pqubit_init m u w k z True =
        Inl (ValueError (''Invalid w: '' @ str_int w @ ''. (Valid range is [0, ''
               @ str_int (m - 1) @ ''] with m='' @ str_int m @ '')''))) \<and>
   (1 \<le> m \<and> (u = 0 \<or> u = 1) \<and> 0 \<le> w \<and> w \<le> m - 1 \<and> \<not> (0 \<le> k \<and> k \<le> 11) \<longrightarrow>
      Pqubit_init m u w k z True =
        Inl (ValueError (''Invalid k: '' @ str_int k @ ''. (Valid range is [0, 11])''))) \<and>
   (1 \<le> m \<and> (u = 0 \<or> u = 1) \<and> 0 \<le> w \<and> w \<le> m - 1 \<and> 0 \<le> k \<and> k \<le> 11 \<and>
    \<not> (0 \<le> z \<and> z \<le> m - 2) \<longrightarrow>
      Pqubit_init m u w k z True =
        Inl (ValueError (''Invalid z: '' @ str_int z @ ''. (Valid range is [0, ''
               @ str_int (m - 2) @ ''] with m='' @ str_int m @ '')''))) \<and>
   (1 \<le> m \<and> (u = 0 \<or> u = 1) \<and> 0 \<le> w \<and> w \<le> m - 1 \<and> 0 \<le> k \<and> k \<le> 11 \<and>
    0 \<le> z \<and> z \<le> m - 2 \<longrightarrow>
      Pqubit_init m u w k z True = Inr (strict_Pqubit m u w k z)) \<and>
   (\<exists>msg. Pqubit_init 1 u w k z True = Inl (ValueError msg)) \<and>
   ((u = 0 \<or> u = 1) \<and> w \<noteq> 0 \<longrightarrow>
      Pqubit_init 1 u w k z True =
        Inl (ValueError (''Invalid w: '' @ str_int w @ ''. (Valid range is [0, 0] with m=1)''))) \<and>
   ((u = 0 \<or> u = 1) \<and> 0 \<le> k \<and> k \<le> 11 \<longrightarrow>
      Pqubit_init 1 u 0 k z True =
        Inl (ValueError (''Invalid z: '' @ str_int z @ ''. (Valid range is [0, -1] with m=1)''))) \<and>
   (\<exists>msg. Pqubit_init m u w 12 z True = Inl (ValueError msg)) \<and>
   (\<exists>msg. Pqubit_init m u w (- 1) z True = Inl (ValueError msg)) \<and>
   Pqubit_init 0 u w k z True =
     Inl (ValueError ''Invalid m: 0. (Must be an integer greater than 0)'')"
proof -
  have a: "\<not> 1 \<le> m \<longrightarrow>
      Pqubit_init m u w k z True =
        Inl (ValueError (''Invalid m: '' @ str_int m @ ''. (Must be an integer greater than 0)''))"
    by (simp add: Pqubit_init_strict check_if_not_valid_def)
  have b: "1 \<le> m \<and> \<not> (u = 0 \<or> u = 1) \<longrightarrow>
      Pqubit_init m u w k z True =
        Inl (ValueError (''Invalid u: '' @ str_int u @ ''. (Valid range is 0 or 1)''))"
    by (simp add: Pqubit_init_strict check_if_not_valid_def)
  have c: "1 \<le> m \<and> (u = 0 \<or> u = 1) \<and> \<not> (0 \<le> w \<and> w \<le> m - 1) \<longrightarrow>
      Pqubit_init m u w k z True =
        Inl (ValueError (''Invalid w: '' @ str_int w @ ''. (Valid range is [0, ''
               @ str_int (m - 1) @ ''] with m='' @ str_int m @ '')''))"
    by (auto simp: Pqubit_init_strict check_if_not_valid_def)
  have d: "1 \<le> m \<and> (u = 0 \<or> u = 1) \<and> 0 \<le> w \<and> w \<le> m - 1 \<and> \<not> (0 \<le> k \<and> k \<le> 11) \<longrightarrow>
      Pqubit_init m u w k z True =
        Inl (ValueError (''Invalid k: '' @ str_int k @ ''. (Valid range is [0, 11])''))"
    by (auto simp: Pqubit_init_strict check_if_not_valid_def)
  have e: "1 \<le> m \<and> (u = 0 \<or> u = 1) \<and> 0 \<le> w \<and> w \<le> m - 1 \<and> 0 \<le> k \<and> k \<le> 11 \<and>
    \<not> (0 \<le> z \<and> z \<le> m - 2) \<longrightarrow>
      Pqubit_init m u w k z True =
        Inl (ValueError (''Invalid z: '' @ str_int z @ ''. (Valid range is [0, ''
               @ str_int (m - 2) @ ''] with m='' @ str_int m @ '')''))"
    by (auto simp: Pqubit_init_strict check_if_not_valid_def)
  have f: "1 \<le> m \<and> (u = 0 \<or> u = 1) \<and> 0 \<le> w \<and> w \<le> m - 1 \<and> 0 \<le> k \<and> k \<le> 11 \<and>
    0 \<le> z \<and> z \<le> m - 2 \<longrightarrow>
      Pqubit_init m u w k z True = Inr (strict_Pqubit m u w k z)"
  proof
    assume "1 \<le> m \<and> (u = 0 \<or> u = 1) \<and> 0 \<le> w \<and> w \<le> m - 1 \<and> 0 \<le> k \<and> k \<le> 11 \<and>
      0 \<le> z \<and> z \<le> m - 2"
    then have "check_if_not_valid m u w k z = None"
      by (simp only: check_if_not_valid_None_iff)
    then show "Pqubit_init m u w k z True = Inr (strict_Pqubit m u w k z)"
      by (simp add: Pqubit_init_strict)
  qed
  have "check_if_not_valid 1 u w k z \<noteq> None"
    by (simp add: check_if_not_valid_None_iff)
  then have g: "\<exists>msg. Pqubit_init 1 u w k z True = Inl (ValueError msg)"
    by (auto simp: Pqubit_init_strict)
  have h: "(u = 0 \<or> u = 1) \<and> w \<noteq> 0 \<longrightarrow>
      Pqubit_init 1 u w k z True =
        Inl (ValueError (''Invalid w: '' @ str_int w @ ''. (Valid range is [0, 0] with m=1)''))"
    by (auto simp: Pqubit_init_strict check_if_not_valid_def str_int_small)
  have i: "(u = 0 \<or> u = 1) \<and> 0 \<le> k \<and> k \<le> 11 \<longrightarrow>
      Pqubit_init 1 u 0 k z True =
        Inl (ValueError (''Invalid z: '' @ str_int z @ ''. (Valid range is [0, -1] with m=1)''))"
    by (auto simp: Pqubit_init_strict check_if_not_valid_def str_int_small)
  have "check_if_not_valid m u w 12 z \<noteq> None" "check_if_not_valid m u w (- 1) z \<noteq> None"
    by (simp_all add: check_if_not_valid_None_iff)
  then have j: "\<exists>msg. Pqubit_init m u w 12 z True = Inl (ValueError msg)"
    and k: "\<exists>msg. Pqubit_init m u w (- 1) z True = Inl (ValueError msg)"
    by (auto simp: Pqubit_init_strict)
  have l: "Pqubit_init 0 u w k z True =
     Inl (ValueError ''Invalid m: 0. (Must be an integer greater than 0)'')"
    by (simp add: Pqubit_init_strict check_if_not_valid_def str_int_small)
  from a b c d e f g h i j k l show ?thesis by (intro conjI)
qed


theorem strict_validation_order_witness:
  "Pqubit_init 0 0 0 0 0 True =
     Inl (ValueError ''Invalid m: 0. (Must be an integer greater than 0)'') \<and>
   Pqubit_init 3 5 0 0 0 True =
     Inl (ValueError ''Invalid u: 5. (Valid range is 0 or 1)'') \<and>
   Pqubit_init 3 0 3 0 0 True =
     Inl (ValueError ''Invalid w: 3. (Valid range is [0, 2] with m=3)'') \<and>
   Pqubit_init 3 0 0 12 0 True =
     Inl (ValueError ''Invalid k: 12. (Valid range is [0, 11])'') \<and>
   Pqubit_init 3 0 0 0 2 True =
     Inl (ValueError ''Invalid z: 2. (Valid range is [0, 1] with m=3)'') \<and>
   Pqubit_init 3 0 0 0 0 True = Inr (strict_Pqubit 3 0 0 0 0) \<and>
   Pqubit_init 1 0 1 0 0 True =
     Inl (ValueError ''Invalid w: 1. (Valid range is [0, 0] with m=1)'') \<and>
   Pqubit_init 1 0 0 0 0 True =
     Inl (ValueError ''Invalid z: 0. (Valid range is [0, -1] with m=1)'')"
  using strict_validation_order [of 0 0 0 0 0] strict_validation_order [of 3 5 0 0 0]
    strict_validation_order [of 3 0 3 0 0] strict_validation_order [of 3 0 0 12 0]
    strict_validation_order [of 3 0 0 0 2] strict_validation_order [of 3 0 0 0 0]
    strict_validation_order [of 1 0 1 0 0] strict_validation_order [of 1 0 0 0 0]
  by (simp add: str_int_def str_nat.simps)

section \<open>Non-strict construction\<close>

text \<open>
  C8. A construction with \<open>assert_valid=False\<close> always returns an object with the five
  fields as given. When the check passes, \<open>none_if_invalid\<close> returns the object itself;
  when it fails (as it does for every slot outside \<open>[0, 11]\<close>), \<open>none_if_invalid\<close>
  returns \<open>None\<close> and \<open>to_linear\<close> raises an error whose text carries the message the
  check gave at construction. Any object the constructor returns with \<open>_valid_coord\<close>
  unset makes \<open>to_linear\<close> fail in that way, in whichever mode it was built.
\<close>

theorem nonstrict_construction:
  "(\<exists>q. Pqubit_init m u w k z False = Inr q \<and>
        pq_m q = m \<and> pq_u q = u \<and> pq_w q = w \<and> pq_k q = k \<and> pq_z q = z \<and>
        (check_if_not_valid m u w k z = None \<longrightarrow>
           valid_coord q \<and> none_if_invalid q = Some q) \<and>
        (\<forall>msg. check_if_not_valid m u w k z = Some msg \<longrightarrow>
           \<not> valid_coord q \<and> check_str q = PyStr msg \<and> none_if_invalid q = None \<and>
           to_linear q =
             Inl (RuntimeError (''Attempted to convert from invalid coordinates:''
                    @ [CHR 0x0A, CHR 0x27] @ msg @ [CHR 0x27])))) \<and>
   (\<forall>av q. Pqubit_init m u w k z av = Inr q \<and> \<not> valid_coord q \<longrightarrow>
      (\<exists>msg. check_if_not_valid m u w k z = Some msg \<and>
         to_linear q =
           Inl (RuntimeError (''Attempted to convert from invalid coordinates:''
                  @ [CHR 0x0A, CHR 0x27] @ msg @ [CHR 0x27])))) \<and>
   (\<not> (0 \<le> k \<and> k \<le> 11) \<longrightarrow> check_if_not_valid m u w k z \<noteq> None)"
proof (intro conjI)
  show "\<exists>q. Pqubit_init m u w k z False = Inr q \<and>
        pq_m q = m \<and> pq_u q = u \<and> pq_w q = w \<and> pq_k q = k \<and> pq_z q = z \<and>
        (check_if_not_valid m u w k z = None \<longrightarrow>
           valid_coord q \<and> none_if_invalid q = Some q) \<and>
        (\<forall>msg. check_if_not_valid m u w k z = Some msg \<longrightarrow>
           \<not> valid_coord q \<and> check_str q = PyStr msg \<and> none_if_invalid q = None \<and>
           to_linear q =
             Inl (RuntimeError (''Attempted to convert from invalid coordinates:''
                    @ [CHR 0x0A, CHR 0x27] @ msg @ [CHR 0x27])))"
    by (cases "check_if_not_valid m u w k z")
       (simp_all add: Pqubit_init_nonstrict none_if_invalid_def to_linear_def)
next
  show "\<forall>av q. Pqubit_init m u w k z av = Inr q \<and> \<not> valid_coord q \<longrightarrow>
      (\<exists>msg. check_if_not_valid m u w k z = Some msg \<and>
         to_linear q =
           Inl (RuntimeError (''Attempted to convert from invalid coordinates:''
                  @ [CHR 0x0A, CHR 0x27] @ msg @ [CHR 0x27])))"
  proof (intro allI impI)
    fix av q
    assume a: "Pqubit_init m u w k z av = Inr q \<and> \<not> valid_coord q"
    show "\<exists>msg. check_if_not_valid m u w k z = Some msg \<and>
         to_linear q =
           Inl (RuntimeError (''Attempted to convert from invalid coordinates:''
                  @ [CHR 0x0A, CHR 0x27] @ msg @ [CHR 0x27]))"
    proof (cases av)
      case True
      with a show ?thesis
        by (cases "check_if_not_valid m u w k z") (auto simp: Pqubit_init_strict)
    next
      case False
      with a show ?thesis
        by (cases "check_if_not_valid m u w k z")
           (auto simp: Pqubit_init_nonstrict to_linear_def)
    qed
  qed
next
  show "\<not> (0 \<le> k \<and> k \<le> 11) \<longrightarrow> check_if_not_valid m u w k z \<noteq> None"
    by (auto simp: check_if_not_valid_None_iff)
qed

theorem nonstrict_construction_witness:
  "check_if_not_valid 3 0 0 15 0 = Some ''Invalid k: 15. (Valid range is [0, 11])'' \<and>
   check_if_not_valid 3 0 0 2 0 = None \<and>
   (\<exists>q. Pqubit_init 3 0 0 15 0 False = Inr q \<and> pq_k q = 15 \<and> none_if_invalid q = None \<and>
      to_linear q =
        Inl (RuntimeError (''Attempted to convert from invalid coordinates:''
               @ [CHR 0x0A, CHR 0x27] @ ''Invalid k: 15. (Valid range is [0, 11])''
               @ [CHR 0x27]))) \<and>
   (\<exists>q. Pqubit_init 3 0 0 2 0 False = Inr q \<and> none_if_invalid q = Some q)"
proof -
  have c1: "check_if_not_valid 3 0 0 15 0 = Some ''Invalid k: 15. (Valid range is [0, 11])''"
    by (simp add: check_if_not_valid_def str_int_def str_nat.simps)
  have c2: "check_if_not_valid 3 0 0 2 0 = None"
    by (simp add: check_if_not_valid_def)
  from conjunct1 [OF nonstrict_construction [of 3 0 0 15 0]] c1
  have e1: "\<exists>q. Pqubit_init 3 0 0 15 0 False = Inr q \<and> pq_k q = 15 \<and> none_if_invalid q = None \<and>
      to_linear q =
        Inl (RuntimeError (''Attempted to convert from invalid coordinates:''
               @ [CHR 0x0A, CHR 0x27] @ ''Invalid k: 15. (Valid range is [0, 11])''
               @ [CHR 0x27]))"
    by auto
  from conjunct1 [OF nonstrict_construction [of 3 0 0 2 0]] c2
  have e2: "\<exists>q. Pqubit_init 3 0 0 2 0 False = Inr q \<and> none_if_invalid q = Some q"
    by auto
  from c1 c2 e1 e2 show ?thesis by (intro conjI)
qed

section \<open>Failure of the coupling methods\<close>





end
